theory Spec2Isabelle
  imports Complex_Main "HOL-Library.Log_Nat"
begin

section \<open>The Hangman API: the guess transition of \<open>make_move\<close>\<close>

text \<open>
  The development embeds \<^verbatim>\<open>src/Hangman/api.py\<close>: the request handler
  \<^verbatim>\<open>make_move\<close> with its helper \<^verbatim>\<open>updateHistory\<close>, and the cache
  functions \<^verbatim>\<open>_cache_average_attempts\<close> and \<^verbatim>\<open>get_average_attempts\<close>.
  The datastore entity is passed in and returned explicitly: \<^verbatim>\<open>game.put()\<close>
  is the returned record. Every path of \<^verbatim>\<open>make_move\<close> that answers with a form
  has stored the entity after its last mutation, and every other path has mutated nothing,
  so the returned record is both the entity in memory and the stored one.
\<close>

subsection \<open>Python strings\<close>

text \<open>
  A string is a list of characters. \<^verbatim>\<open>isalpha\<close> and \<^verbatim>\<open>upper\<close> are modelled on
  ASCII, the letters \<^verbatim>\<open>A-Z\<close> and \<^verbatim>\<open>a-z\<close>, where they agree with Python's methods.
  Python also counts letters beyond ASCII as alphabetic and maps them to upper case; such
  characters are not modelled. The theorems about a guess are therefore stated where model
  and code agree: for a guess that \<open>isalpha\<close> accepts, which is all ASCII letters (lemma
  \<open>isalpha_ascii\<close>), and for a refused guess that is empty or holds an ASCII character
  that is not a letter.
\<close>

definition is_letter :: "char \<Rightarrow> bool" where
  "is_letter c =
     (let n = (of_char c :: nat) in (65 \<le> n \<and> n \<le> 90) \<or> (97 \<le> n \<and> n \<le> 122))"

text \<open>\<^verbatim>\<open>s.isalpha()\<close>: at least one character, and all of them letters.\<close>

definition isalpha :: "string \<Rightarrow> bool" where
  "isalpha s = (s \<noteq> [] \<and> list_all is_letter s)"

definition upper_char :: "char \<Rightarrow> char" where
  "upper_char c =
     (let n = (of_char c :: nat) in if 97 \<le> n \<and> n \<le> 122 then char_of (n - 32) else c)"

text \<open>\<^verbatim>\<open>s.upper()\<close>.\<close>

definition upper :: "string \<Rightarrow> string" where
  "upper s = map upper_char s"

subsection \<open>The Game entity\<close>

text \<open>
  The fields of \<^verbatim>\<open>Game\<close> that \<^verbatim>\<open>api.py\<close> reads and writes.
  \<^verbatim>\<open>history\<close> is stored as JSON text holding a list of \<^verbatim>\<open>[guess, msg]\<close>
  pairs; the model keeps the decoded list. The class itself (\<^verbatim>\<open>models.py\<close>) is
  not part of the sources at hand: the field \<open>won\<close> and the methods \<open>end_game\<close>,
  \<open>word_progress\<close> and \<open>new_game\<close> below follow the specification.
\<close>

record game =
  target :: string
  guessed_letters :: "nat list"
  attempts_remaining :: int
  game_over :: bool
  won :: bool
  history :: "(string \<times> string) list"

datatype state = IN_PROGRESS | WON | LOST

text \<open>
  Modelled from the spec: the states of the Game entity (4.1), missing with
  \<^verbatim>\<open>models.py\<close>. Both terminal states have \<open>game_over\<close> set, and \<open>won\<close> tells
  them apart.
\<close>

definition state_of :: "game \<Rightarrow> state" where
  "state_of g = (if \<not> game_over g then IN_PROGRESS else if won g then WON else LOST)"

text \<open>
  Modelled from the spec: \<^verbatim>\<open>Game.end_game(won)\<close>, missing with
  \<^verbatim>\<open>models.py\<close>. The game becomes terminal, with the given outcome.
\<close>

definition end_game :: "game \<Rightarrow> bool \<Rightarrow> game" where
  "end_game g w = g\<lparr>game_over := True, won := w\<rparr>"

text \<open>
  Modelled from the spec: \<^verbatim>\<open>Game.word_progress()\<close>, missing with
  \<^verbatim>\<open>models.py\<close>. For each index of the target, the letter there if the index
  is among the guessed positions, and the placeholder \<^verbatim>\<open>_\<close> otherwise.
\<close>

definition word_progress :: "game \<Rightarrow> string" where
  "word_progress g =
     map (\<lambda>i. if i \<in> set (guessed_letters g) then target g ! i else CHR ''_'')
       [0 ..< length (target g)]"

text \<open>
  Modelled from the spec: \<^verbatim>\<open>Game.new_game(user, attempts)\<close>, missing with
  \<^verbatim>\<open>models.py\<close>, with the word drawn from the word list as a parameter.
  A new game has no guessed position and no history, and is not over.
\<close>

definition new_game :: "string \<Rightarrow> int \<Rightarrow> game" where
  "new_game word attempts =
     \<lparr>target = word, guessed_letters = [], attempts_remaining = attempts,
      game_over = False, won = False, history = []\<rparr>"

subsection \<open>\<open>updateHistory\<close> and \<open>make_move\<close>\<close>

definition updateHistory :: "game \<Rightarrow> string \<Rightarrow> string \<Rightarrow> game" where
  "updateHistory g guess msg = g\<lparr>history := history g @ [(guess, msg)]\<rparr>"

datatype exn = BadRequestException string

text \<open>
  What a call of the handler gives back: an exception raised, an exception object handed
  back by \<^verbatim>\<open>return\<close> as if it were the answer, or the form built by
  \<^verbatim>\<open>game.to_form(msg)\<close>, of which the model keeps the message.
\<close>

datatype response = Raise exn | Return_exn exn | GameForm string

text \<open>
  The loop of lines 181 to 184 over \<^verbatim>\<open>enumerate(game.target)\<close>. Its state is the
  list of guessed positions and the flag \<^verbatim>\<open>letterInWord\<close>; \<open>u\<close> is
  \<^verbatim>\<open>request.guess.upper()\<close>, compared with the one-character string \<open>[c]\<close>.
\<close>

fun reveal :: "string \<Rightarrow> (nat \<times> char) list \<Rightarrow> nat list \<times> bool \<Rightarrow> nat list \<times> bool" where
  "reveal u [] st = st"
| "reveal u ((i, c) # ics) (gl, letterInWord) =
     (if u = [c] \<and> i \<notin> set gl then reveal u ics (gl @ [i], True)
      else reveal u ics (gl, letterInWord))"

text \<open>Lines 190 to 209: what follows the letter loop.\<close>

definition after_letter :: "game \<Rightarrow> string \<Rightarrow> bool \<Rightarrow> response \<times> game" where
  "after_letter g guess letterInWord =
     (if length (guessed_letters g) = length (target g) then
        (let msg = ''You win! Word was '' @ word_progress g
         in (GameForm msg, end_game (updateHistory g guess msg) True))
      else
        (let fmt = (if letterInWord then ''Letter was in the word! Word progress: ''
                    else ''Letter was not in the word! Word progress: '');
             g1 = (if letterInWord then g
                   else g\<lparr>attempts_remaining := attempts_remaining g - 1\<rparr>)
         in if attempts_remaining g1 < 1 then
              (let msg = ''Game over!''
               in (GameForm msg, end_game (updateHistory g1 guess msg) False))
            else
              (GameForm (fmt @ word_progress g1),
               updateHistory g1 guess (fmt @ word_progress g1))))"

definition make_move :: "game \<Rightarrow> string \<Rightarrow> response \<times> game" where
  "make_move g guess =
     (if game_over g then (Return_exn (BadRequestException ''Game is already over!''), g)
      else if isalpha guess then
        (if guess = target g then
           (let msg = ''You win! Word was '' @ target g
            in (GameForm msg, end_game (updateHistory g guess msg) True))
         else if length guess = 1 then
           (case reveal (upper guess) (enumerate 0 (target g)) (guessed_letters g, False) of
              (gl, letterInWord) \<Rightarrow>
                after_letter (g\<lparr>guessed_letters := gl\<rparr>) guess letterInWord)
         else
           (Raise (BadRequestException ''Guess must be a single character or the word!''), g))
      else (Raise (BadRequestException ''Guess must be all letters!''), g))"

text \<open>A sequence of calls on one game, each on the entity the call before left.\<close>

definition play :: "game \<Rightarrow> string list \<Rightarrow> game" where
  "play g guesses = foldl (\<lambda>h guess. snd (make_move h guess)) g guesses"

subsection \<open>Positions a letter matches\<close>

text \<open>
  The positions of the target that line 182 accepts for a guess: those whose character is
  the upper-cased guess, and among them those not yet in \<open>guessed_letters\<close>.
\<close>

definition matching_positions :: "game \<Rightarrow> string \<Rightarrow> nat list" where
  "matching_positions g guess =
     filter (\<lambda>i. upper guess = [target g ! i]) [0 ..< length (target g)]"

definition new_positions :: "game \<Rightarrow> string \<Rightarrow> nat list" where
  "new_positions g guess =
     filter (\<lambda>i. i \<notin> set (guessed_letters g)) (matching_positions g guess)"

subsection \<open>Invariants of the entity\<close>

text \<open>The guessed positions are distinct indices into the target.\<close>

definition valid_positions :: "game \<Rightarrow> bool" where
  "valid_positions g =
     (distinct (guessed_letters g) \<and> (\<forall>i \<in> set (guessed_letters g). i < length (target g)))"

text \<open>
  A consistent game: its positions are valid and, while it is not over, some position of
  the target is still hidden. A new game on a non-empty word is consistent, and
  \<open>make_move\<close> keeps a game consistent (lemmas \<open>game_inv_new_game\<close> and
  \<open>game_inv_make_move\<close>).
\<close>

definition game_inv :: "game \<Rightarrow> bool" where
  "game_inv g =
     (valid_positions g \<and>
      (\<not> game_over g \<longrightarrow> length (guessed_letters g) < length (target g)))"

subsection \<open>Python floats\<close>

text \<open>
  A finite double is \<open>m * 2 ^ s\<close> for integers \<open>m\<close> and \<open>s\<close>; the model keeps the pair
  and computes with integers only. Rounding is that of IEEE 754: to the nearest double, a
  tie going to the even significand, on 53 bits, with the subnormal spacing \<open>2 ^ - 1074\<close>
  at the bottom of the range. Magnitudes from \<open>2 ^ 1024\<close> on, where the conversion of an
  integer raises \<^verbatim>\<open>OverflowError\<close>, are not modelled; the theorem on the average is
  stated for a sum and a number of games below \<open>2 ^ 53\<close>.
\<close>

type_synonym double = "int \<times> int"

definition double_value :: "double \<Rightarrow> real" where
  "double_value x = real_of_int (fst x) * 2 powi (snd x)"

text \<open>The integer nearest to \<open>a / b\<close>, for \<open>b > 0\<close>, a tie going to the even one.\<close>

definition round_half_even_div :: "int \<Rightarrow> int \<Rightarrow> int" where
  "round_half_even_div a b =
     (let q = a div b; r = a mod b
      in if 2 * r < b then q
         else if b < 2 * r then q + 1
         else if even q then q else q + 1)"

text \<open>
  The binary exponent of \<open>a / b\<close>, for \<open>a > 0\<close> and \<open>b > 0\<close>: the \<open>e\<close> with
  \<open>2 ^ e \<le> a / b < 2 ^ (e + 1)\<close> (lemma \<open>binade_bounds\<close>).
\<close>

definition binade :: "int \<Rightarrow> int \<Rightarrow> int" where
  "binade a b =
     (let d = bitlen a - bitlen b
      in if (if 0 \<le> d then b * 2 ^ nat d \<le> a else b \<le> a * 2 ^ nat (- d)) then d
         else d - 1)"

text \<open>The double nearest to the exact quotient \<open>a / b\<close>, for \<open>b > 0\<close>.\<close>

definition nearest_double :: "int \<Rightarrow> int \<Rightarrow> double" where
  "nearest_double a b =
     (if a = 0 then (0, 0)
      else
        (let s = max (binade \<bar>a\<bar> b - 52) (- 1074);
             m = (if 0 \<le> s then round_half_even_div \<bar>a\<bar> (b * 2 ^ nat s)
                  else round_half_even_div (\<bar>a\<bar> * 2 ^ nat (- s)) b)
         in (sgn a * m, s)))"

text \<open>\<^verbatim>\<open>float(n)\<close> for an integer, also the conversion of the integer operand of a
  float division.\<close>

definition py_float :: "int \<Rightarrow> double" where
  "py_float n = nearest_double n 1"

text \<open>\<^verbatim>\<open>x / y\<close> on doubles, for a positive divisor (here the number of games).\<close>

definition double_div :: "double \<Rightarrow> double \<Rightarrow> double" where
  "double_div x y =
     nearest_double (fst x * 2 ^ nat (snd x - snd y)) (fst y * 2 ^ nat (snd y - snd x))"

text \<open>
  \<^verbatim>\<open>'{:.2f}'.format(x)\<close>: the decimal with two fractional digits nearest to the exact
  value of the double, a tie going to the even last digit, with the sign of \<open>x\<close> even
  when the digits are all zero. \<open>hundredths x\<close> is that decimal without its sign, counted
  in hundredths.
\<close>

definition hundredths :: "double \<Rightarrow> int" where
  "hundredths x =
     (if 0 \<le> snd x then \<bar>fst x\<bar> * 2 ^ nat (snd x) * 100
      else round_half_even_div (\<bar>fst x\<bar> * 100) (2 ^ nat (- snd x)))"

definition digit :: "int \<Rightarrow> char" where
  "digit d = char_of (48 + d)"

text \<open>The decimal digits of a natural number, given as an integer.\<close>

function decimal :: "int \<Rightarrow> string" where
  "decimal n = (if n < 10 then [digit n] else decimal (n div 10) @ [digit (n mod 10)])"
  by pat_completeness auto
termination
  by (relation "measure nat") auto

definition format_2f :: "double \<Rightarrow> string" where
  "format_2f x =
     (let h = hundredths x
      in (if fst x < 0 then ''-'' else []) @ decimal (h div 100) @ ''.'' @
         [digit (h div 10 mod 10), digit (h mod 10)])"

text \<open>The number that the characters of \<open>format_2f x\<close> denote.\<close>

definition shown :: "double \<Rightarrow> real" where
  "shown x = (if fst x < 0 then - 1 else 1) * real_of_int (hundredths x) / 100"

text \<open>
  Reading such a decimal back: the sign, and the digits without the point counted in
  hundredths.
\<close>

definition digit_value :: "char \<Rightarrow> int" where
  "digit_value c = of_char c - 48"

definition digits_value :: "string \<Rightarrow> int" where
  "digits_value cs = foldl (\<lambda>acc c. 10 * acc + digit_value c) 0 cs"

definition read_2f :: "string \<Rightarrow> real" where
  "read_2f str =
     (if str \<noteq> [] \<and> hd str = CHR ''-'' then - 1 else 1) *
     real_of_int (digits_value (filter (\<lambda>c. c \<noteq> CHR ''-'' \<and> c \<noteq> CHR ''.'') str)) / 100"

subsection \<open>The cached average of the attempts remaining\<close>

text \<open>
  The datastore is the list of all games and memcache is one optional string, the value
  under the key \<^verbatim>\<open>MOVES_REMAINING\<close>.
\<close>

text \<open>Lines 267 to 270: the local \<^verbatim>\<open>average\<close>, for the games fetched.\<close>

definition average :: "game list \<Rightarrow> double" where
  "average games =
     (let count = length games;
          total_attempts_remaining = sum_list (map attempts_remaining games)
      in double_div (py_float total_attempts_remaining) (py_float (int count)))"

definition cache_average_attempts :: "game list \<Rightarrow> string option \<Rightarrow> string option" where
  "cache_average_attempts all_games cache =
     (let games = filter (\<lambda>g. game_over g = False) all_games
      in if games \<noteq> [] then
           Some (''The average moves remaining is '' @ format_2f (average games))
         else cache)"

text \<open>\<^verbatim>\<open>memcache.get(MEMCACHE_MOVES_REMAINING) or ''\<close>, the message of the answer.\<close>

definition get_average_attempts :: "string option \<Rightarrow> string" where
  "get_average_attempts cache =
     (case cache of None \<Rightarrow> [] | Some s \<Rightarrow> (if s = [] then [] else s))"

text \<open>
  The arithmetic mean in the words of the specification: the sum of the values over their
  number, as a real number.
\<close>

definition arithmetic_mean :: "int list \<Rightarrow> real" where
  "arithmetic_mean xs = real_of_int (sum_list xs) / real (length xs)"

section \<open>Properties\<close>

subsection \<open>The letter loop\<close>

lemma reveal_enumerate:
  "reveal u (enumerate k t) (gl, b) =
     (gl @ filter (\<lambda>i. u = [t ! (i - k)] \<and> i \<notin> set gl) [k ..< k + length t],
      b \<or> filter (\<lambda>i. u = [t ! (i - k)] \<and> i \<notin> set gl) [k ..< k + length t] \<noteq> [])"
proof (induction t arbitrary: k gl b)
  case Nil
  show ?case by simp
next
  case (Cons c t)
  have range: "[k ..< k + length (c # t)] = k # [Suc k ..< Suc k + length t]"
    by (simp add: upt_conv_Cons del: upt_Suc)
  have pt: "(c # t) ! (i - k) = t ! (i - Suc k)" if "Suc k \<le> i" for i
    using that by (simp add: nth_Cons')
  have shift: "filter (\<lambda>i. u = [t ! (i - Suc k)] \<and> i \<notin> set (gl @ [k])) [Suc k ..< Suc k + length t]
             = filter (\<lambda>i. u = [(c # t) ! (i - k)] \<and> i \<notin> set gl) [Suc k ..< Suc k + length t]"
    by (rule filter_cong [OF refl]) (auto simp: pt simp del: upt_Suc)
  have shift': "filter (\<lambda>i. u = [t ! (i - Suc k)] \<and> i \<notin> set gl) [Suc k ..< Suc k + length t]
             = filter (\<lambda>i. u = [(c # t) ! (i - k)] \<and> i \<notin> set gl) [Suc k ..< Suc k + length t]"
    by (rule filter_cong [OF refl]) (auto simp: pt simp del: upt_Suc)
  show ?case
  proof (cases "u = [c] \<and> k \<notin> set gl")
    case True
    have "reveal u (enumerate k (c # t)) (gl, b) =
          reveal u (enumerate (Suc k) t) (gl @ [k], True)"
      using True by simp
    also have "\<dots> =
       ((gl @ [k]) @ filter (\<lambda>i. u = [t ! (i - Suc k)] \<and> i \<notin> set (gl @ [k]))
                      [Suc k ..< Suc k + length t],
        True \<or> filter (\<lambda>i. u = [t ! (i - Suc k)] \<and> i \<notin> set (gl @ [k]))
                      [Suc k ..< Suc k + length t] \<noteq> [])"
      by (rule Cons.IH)
    also have "\<dots> =
       (gl @ filter (\<lambda>i. u = [(c # t) ! (i - k)] \<and> i \<notin> set gl) [k ..< k + length (c # t)],
        b \<or> filter (\<lambda>i. u = [(c # t) ! (i - k)] \<and> i \<notin> set gl)
                 [k ..< k + length (c # t)] \<noteq> [])"
      unfolding range shift using True by simp
    finally show ?thesis .
  next
    case False
    have "reveal u (enumerate k (c # t)) (gl, b) =
          reveal u (enumerate (Suc k) t) (gl, b)"
      using False by auto
    also have "\<dots> =
       (gl @ filter (\<lambda>i. u = [t ! (i - Suc k)] \<and> i \<notin> set gl)
                [Suc k ..< Suc k + length t],
        b \<or> filter (\<lambda>i. u = [t ! (i - Suc k)] \<and> i \<notin> set gl)
                 [Suc k ..< Suc k + length t] \<noteq> [])"
      by (rule Cons.IH)
    also have "\<dots> =
       (gl @ filter (\<lambda>i. u = [(c # t) ! (i - k)] \<and> i \<notin> set gl) [k ..< k + length (c # t)],
        b \<or> filter (\<lambda>i. u = [(c # t) ! (i - k)] \<and> i \<notin> set gl)
                 [k ..< k + length (c # t)] \<noteq> [])"
      unfolding range shift' using False by auto
    finally show ?thesis .
  qed
qed

lemma new_positions_filter:
  "new_positions g guess =
     filter (\<lambda>i. upper guess = [target g ! i] \<and> i \<notin> set (guessed_letters g))
       [0 ..< length (target g)]"
  by (simp add: new_positions_def matching_positions_def conj_commute)

lemma reveal_new_positions:
  "reveal (upper guess) (enumerate 0 (target g)) (guessed_letters g, False) =
     (guessed_letters g @ new_positions g guess, new_positions g guess \<noteq> [])"
  using reveal_enumerate [of "upper guess" 0 "target g" "guessed_letters g" False]
  by (simp add: new_positions_filter)

subsection \<open>The branches of \<open>make_move\<close>\<close>

lemma make_move_over:
  "game_over g \<Longrightarrow>
   make_move g guess = (Return_exn (BadRequestException ''Game is already over!''), g)"
  by (simp add: make_move_def)

lemma make_move_not_alpha:
  "\<not> game_over g \<Longrightarrow> \<not> isalpha guess \<Longrightarrow>
   make_move g guess = (Raise (BadRequestException ''Guess must be all letters!''), g)"
  by (simp add: make_move_def)

lemma make_move_word:
  "\<not> game_over g \<Longrightarrow> isalpha guess \<Longrightarrow> guess = target g \<Longrightarrow>
   make_move g guess =
     (GameForm (''You win! Word was '' @ target g),
      g\<lparr>game_over := True, won := True,
        history := history g @ [(guess, ''You win! Word was '' @ target g)]\<rparr>)"
  by (simp add: make_move_def end_game_def updateHistory_def Let_def)

lemma make_move_wrong_length:
  "\<not> game_over g \<Longrightarrow> isalpha guess \<Longrightarrow> guess \<noteq> target g \<Longrightarrow> length guess \<noteq> 1 \<Longrightarrow>
   make_move g guess =
     (Raise (BadRequestException ''Guess must be a single character or the word!''), g)"
  by (simp add: make_move_def)

lemma make_move_letter:
  "\<not> game_over g \<Longrightarrow> isalpha guess \<Longrightarrow> guess \<noteq> target g \<Longrightarrow> length guess = 1 \<Longrightarrow>
   make_move g guess =
     after_letter (g\<lparr>guessed_letters := guessed_letters g @ new_positions g guess\<rparr>) guess
       (new_positions g guess \<noteq> [])"
  by (simp add: make_move_def reveal_new_positions)

lemma make_move_miss:
  assumes "\<not> game_over g" "isalpha guess" "guess \<noteq> target g" "length guess = 1"
    and "new_positions g guess = []"
    and "length (guessed_letters g) \<noteq> length (target g)"
  shows "make_move g guess =
     (if attempts_remaining g - 1 < 1 then
        (GameForm ''Game over!'',
         g\<lparr>attempts_remaining := attempts_remaining g - 1, game_over := True, won := False,
           history := history g @ [(guess, ''Game over!'')]\<rparr>)
      else
        (GameForm (''Letter was not in the word! Word progress: '' @ word_progress g),
         g\<lparr>attempts_remaining := attempts_remaining g - 1,
           history := history g @
             [(guess, ''Letter was not in the word! Word progress: '' @ word_progress g)]\<rparr>))"
  using assms
  by (simp add: make_move_letter after_letter_def end_game_def updateHistory_def
      word_progress_def Let_def)

subsection \<open>What a call leaves alone and what it keeps\<close>

lemma after_letter_frame:
  "target (snd (after_letter g guess b)) = target g"
  "guessed_letters (snd (after_letter g guess b)) = guessed_letters g"
  by (simp_all add: after_letter_def Let_def end_game_def updateHistory_def)

lemma after_letter_running:
  "\<not> game_over (snd (after_letter g guess b)) \<Longrightarrow>
   length (guessed_letters g) \<noteq> length (target g)"
  by (auto simp add: after_letter_def Let_def end_game_def updateHistory_def
      split: if_splits)

lemma make_move_cases:
  fixes g :: game and guess :: string
  obtains (over) "game_over g"
  | (not_alpha) "\<not> game_over g" "\<not> isalpha guess"
  | (word) "\<not> game_over g" "isalpha guess" "guess = target g"
  | (wrong_length) "\<not> game_over g" "isalpha guess" "guess \<noteq> target g" "length guess \<noteq> 1"
  | (letter) "\<not> game_over g" "isalpha guess" "guess \<noteq> target g" "length guess = 1"
  by blast

lemma make_move_target: "target (snd (make_move g guess)) = target g"
  by (cases rule: make_move_cases [where g = g and guess = guess])
    (simp_all add: make_move_over make_move_not_alpha make_move_word make_move_wrong_length
      make_move_letter after_letter_frame)

lemma make_move_guessed_letters:
  "guessed_letters (snd (make_move g guess)) = guessed_letters g \<or>
   guessed_letters (snd (make_move g guess)) = guessed_letters g @ new_positions g guess"
  by (cases rule: make_move_cases [where g = g and guess = guess])
    (simp_all add: make_move_over make_move_not_alpha make_move_word make_move_wrong_length
      make_move_letter after_letter_frame)

lemma valid_positions_length:
  assumes "valid_positions g"
  shows "length (guessed_letters g) \<le> length (target g)"
proof -
  have "set (guessed_letters g) \<subseteq> {..< length (target g)}"
    using assms by (auto simp: valid_positions_def)
  then have "card (set (guessed_letters g)) \<le> card {..< length (target g)}"
    by (intro card_mono) simp_all
  moreover have "card (set (guessed_letters g)) = length (guessed_letters g)"
    using assms by (simp add: valid_positions_def distinct_card)
  ultimately show ?thesis by simp
qed

lemma valid_positions_fields:
  "guessed_letters h = guessed_letters g \<Longrightarrow> target h = target g \<Longrightarrow>
   valid_positions h = valid_positions g"
  by (simp add: valid_positions_def)

lemma valid_positions_new:
  assumes "valid_positions g"
  shows "valid_positions (g\<lparr>guessed_letters := guessed_letters g @ new_positions g guess\<rparr>)"
  using assms by (auto simp: valid_positions_def new_positions_def matching_positions_def)

lemma valid_positions_make_move:
  assumes "valid_positions g"
  shows "valid_positions (snd (make_move g guess))"
proof -
  have "valid_positions (snd (make_move g guess)) =
        valid_positions (g\<lparr>guessed_letters := guessed_letters (snd (make_move g guess))\<rparr>)"
    by (rule valid_positions_fields) (simp_all add: make_move_target)
  also have "\<dots>"
    using make_move_guessed_letters [of g guess] valid_positions_new [OF assms, of guess] assms
    by (auto simp: valid_positions_def)
  finally show ?thesis .
qed

lemma make_move_running:
  assumes "\<not> game_over (snd (make_move g guess))" and "\<not> game_over g"
  shows "length (guessed_letters (snd (make_move g guess))) \<noteq> length (target g) \<or>
         snd (make_move g guess) = g"
proof (cases rule: make_move_cases [where g = g and guess = guess])
  case over
  then show ?thesis using assms by simp
next
  case not_alpha
  then show ?thesis by (simp add: make_move_not_alpha)
next
  case word
  then show ?thesis using assms by (simp add: make_move_word)
next
  case wrong_length
  then show ?thesis by (simp add: make_move_wrong_length)
next
  case letter
  then show ?thesis
    using assms after_letter_running
      [of "g\<lparr>guessed_letters := guessed_letters g @ new_positions g guess\<rparr>" guess
          "new_positions g guess \<noteq> []"]
    by (simp add: make_move_letter after_letter_frame)
qed

lemma game_inv_new_game: "word \<noteq> [] \<Longrightarrow> game_inv (new_game word attempts)"
  by (simp add: game_inv_def valid_positions_def new_game_def)

lemma game_inv_make_move:
  assumes "game_inv g"
  shows "game_inv (snd (make_move g guess))"
proof (cases "game_over g")
  case True
  then show ?thesis using assms by (simp add: make_move_over)
next
  case False
  have valid: "valid_positions (snd (make_move g guess))"
    using assms by (simp add: game_inv_def valid_positions_make_move)
  show ?thesis
  proof (cases "game_over (snd (make_move g guess))")
    case True
    then show ?thesis using valid by (simp add: game_inv_def)
  next
    case running: False
    from make_move_running [OF running False] show ?thesis
    proof
      assume "length (guessed_letters (snd (make_move g guess))) \<noteq> length (target g)"
      moreover have "length (guessed_letters (snd (make_move g guess))) \<le> length (target g)"
        using valid_positions_length [OF valid] by (simp add: make_move_target)
      ultimately show ?thesis
        using valid by (simp add: game_inv_def make_move_target)
    next
      assume "snd (make_move g guess) = g"
      then show ?thesis using assms by simp
    qed
  qed
qed

lemma play_snoc: "play g (guesses @ [guess]) = snd (make_move (play g guesses) guess)"
  by (simp add: play_def)

lemma play_target: "target (play g guesses) = target g"
  by (induction guesses rule: rev_induct) (simp_all add: play_def make_move_target)

lemma valid_positions_play: "valid_positions g \<Longrightarrow> valid_positions (play g guesses)"
  by (induction guesses rule: rev_induct) (simp_all add: play_def valid_positions_make_move)

lemma game_inv_play: "game_inv g \<Longrightarrow> game_inv (play g guesses)"
  by (induction guesses rule: rev_induct) (simp_all add: play_def game_inv_make_move)

lemma valid_positions_new_game: "valid_positions (new_game word attempts)"
  by (simp add: valid_positions_def new_game_def)

lemma new_game_positions_bounded:
  "length (guessed_letters (play (new_game word attempts) guesses)) \<le> length word"
  using valid_positions_length [OF valid_positions_play [OF valid_positions_new_game]]
  by (simp add: play_target new_game_def)

subsection \<open>Strings that \<open>isalpha\<close> accepts\<close>

lemma isalpha_ascii: "isalpha s \<Longrightarrow> \<forall>c \<in> set s. is_letter c \<and> of_char c < (128::nat)"
  by (auto simp add: isalpha_def list_all_iff is_letter_def Let_def)

subsection \<open>Rounding to a double and to two decimals\<close>

lemma round_half_even_div_error:
  assumes "0 < b"
  shows "\<bar>real_of_int (round_half_even_div a b) - real_of_int a / real_of_int b\<bar> \<le> 1 / 2"
proof -
  define q where "q = a div b"
  define r where "r = a mod b"
  have r: "0 \<le> r" "r < b"
    using assms by (simp_all add: r_def)
  have "a = b * q + r"
    by (simp add: q_def r_def)
  then have "real_of_int a = real_of_int b * real_of_int q + real_of_int r"
    by (metis of_int_add of_int_mult)
  then have quot: "real_of_int a / real_of_int b = real_of_int q + real_of_int r / real_of_int b"
    using assms by (simp add: field_simps)
  have frac: "0 \<le> real_of_int r / real_of_int b" "real_of_int r / real_of_int b < 1"
    using r assms by simp_all
  consider (down) "2 * r < b" | (up) "b < 2 * r" | (tie) "2 * r = b"
    by linarith
  then show ?thesis
  proof cases
    case down
    then have "real_of_int r / real_of_int b < 1 / 2"
      using assms by (auto simp add: field_simps)
    moreover have "round_half_even_div a b = q"
      using down by (simp add: round_half_even_div_def Let_def q_def r_def)
    ultimately show ?thesis using quot frac by simp
  next
    case up
    then have "1 / 2 < real_of_int r / real_of_int b"
      using assms by (auto simp add: field_simps)
    moreover have "round_half_even_div a b = q + 1"
      using up by (simp add: round_half_even_div_def Let_def q_def r_def)
    ultimately show ?thesis using quot frac by simp
  next
    case tie
    then have "real_of_int r / real_of_int b = 1 / 2"
      using assms by (auto simp add: field_simps)
    moreover have "round_half_even_div a b = q \<or> round_half_even_div a b = q + 1"
      using tie by (simp add: round_half_even_div_def Let_def q_def r_def)
    ultimately show ?thesis using quot by auto
  qed
qed

lemma round_half_even_div_one: "round_half_even_div a 1 = a"
  by (simp add: round_half_even_div_def)

lemma round_half_even_div_nonneg: "0 \<le> a \<Longrightarrow> 0 < b \<Longrightarrow> 0 \<le> round_half_even_div a b"
  by (auto simp add: round_half_even_div_def Let_def pos_imp_zdiv_nonneg_iff)

lemma binade_test:
  assumes "0 < a" and "0 < b"
  shows "(if 0 \<le> d then b * 2 ^ nat d \<le> a else b \<le> a * 2 ^ nat (- d)) \<longleftrightarrow>
         2 powi d \<le> real_of_int a / real_of_int b"
proof (cases "0 \<le> d")
  case True
  have "b * 2 ^ nat d \<le> a \<longleftrightarrow> real_of_int (b * 2 ^ nat d) \<le> real_of_int a"
    by (simp only: of_int_le_iff)
  also have "\<dots> \<longleftrightarrow> real_of_int b * 2 powi d \<le> real_of_int a"
    using True by (simp add: power_int_def)
  also have "\<dots> \<longleftrightarrow> 2 powi d \<le> real_of_int a / real_of_int b"
    using assms by (simp add: field_simps)
  finally show ?thesis using True by simp
next
  case False
  then have neg: "0 \<le> - d" by simp
  have inv: "(2::real) powi d = 1 / 2 powi (- d)"
    by (simp add: power_int_minus field_simps)
  have pos: "(0::real) < 2 powi (- d)" by simp
  have "b \<le> a * 2 ^ nat (- d) \<longleftrightarrow> real_of_int b \<le> real_of_int (a * 2 ^ nat (- d))"
    by (simp only: of_int_le_iff)
  also have "\<dots> \<longleftrightarrow> real_of_int b \<le> real_of_int a * 2 powi (- d)"
    using neg by (simp add: power_int_def)
  also have "\<dots> \<longleftrightarrow> 2 powi d \<le> real_of_int a / real_of_int b"
    unfolding inv using assms pos by (simp add: field_simps)
  finally show ?thesis using False by simp
qed

lemma binade_bounds:
  assumes "0 < a" and "0 < b"
  shows "2 powi (binade a b) \<le> real_of_int a / real_of_int b"
    and "real_of_int a / real_of_int b < 2 powi (binade a b + 1)"
proof -
  define d where "d = bitlen a - bitlen b"
  have la: "1 \<le> bitlen a" and lb: "1 \<le> bitlen b"
    using assms by (simp_all add: bitlen_alt_def)
  have "2 ^ nat (bitlen a - 1) \<le> a" "a < 2 ^ nat (bitlen a)"
    using bitlen_bounds [OF assms(1)] by simp_all
  then have "real_of_int (2 ^ nat (bitlen a - 1)) \<le> real_of_int a"
    "real_of_int a < real_of_int (2 ^ nat (bitlen a))"
    by (simp_all only: of_int_le_iff of_int_less_iff)
  then have a: "2 powi (bitlen a - 1) \<le> real_of_int a" "real_of_int a < 2 powi (bitlen a)"
    using la by (simp_all add: power_int_def)
  have "2 ^ nat (bitlen b - 1) \<le> b" "b < 2 ^ nat (bitlen b)"
    using bitlen_bounds [OF assms(2)] by simp_all
  then have "real_of_int (2 ^ nat (bitlen b - 1)) \<le> real_of_int b"
    "real_of_int b < real_of_int (2 ^ nat (bitlen b))"
    by (simp_all only: of_int_le_iff of_int_less_iff)
  then have b: "2 powi (bitlen b - 1) \<le> real_of_int b" "real_of_int b < 2 powi (bitlen b)"
    using lb by (simp_all add: power_int_def)
  have rb: "0 < real_of_int b" and ra: "0 < real_of_int a"
    using assms by simp_all
  have "real_of_int a / real_of_int b < 2 powi (bitlen a) / 2 powi (bitlen b - 1)"
    using a(2) b(1) ra rb
    by (intro frac_less) simp_all
  also have "\<dots> = 2 powi (d + 1)"
    by (simp add: d_def power_int_diff [symmetric] algebra_simps)
  finally have upper: "real_of_int a / real_of_int b < 2 powi (d + 1)" .
  have "2 powi (d - 1) = 2 powi (bitlen a - 1) / (2::real) powi (bitlen b)"
    by (simp add: d_def power_int_diff [symmetric] algebra_simps)
  also have "\<dots> \<le> real_of_int a / real_of_int b"
    using a(1) less_imp_le [OF b(2)] ra rb
    by (intro frac_le) simp_all
  finally have lower: "2 powi (d - 1) \<le> real_of_int a / real_of_int b" .
  show "2 powi (binade a b) \<le> real_of_int a / real_of_int b"
    using lower binade_test [OF assms, of d]
    by (simp add: binade_def Let_def d_def [symmetric])
  show "real_of_int a / real_of_int b < 2 powi (binade a b + 1)"
    using upper binade_test [OF assms, of d]
    by (auto simp add: binade_def Let_def d_def [symmetric])
qed

lemma significand_error:
  assumes "0 < n" and "0 < b"
  shows "\<bar>real_of_int (if 0 \<le> s then round_half_even_div n (b * 2 ^ nat s)
                        else round_half_even_div (n * 2 ^ nat (- s)) b)
          - real_of_int n / real_of_int b / 2 powi s\<bar> \<le> 1 / 2"
proof (cases "0 \<le> s")
  case True
  have "0 < b * 2 ^ nat s" using assms by simp
  from round_half_even_div_error [OF this, of n]
  have err: "\<bar>real_of_int (round_half_even_div n (b * 2 ^ nat s))
         - real_of_int n / real_of_int (b * 2 ^ nat s)\<bar> \<le> 1 / 2" .
  have eq: "real_of_int n / real_of_int (b * 2 ^ nat s) =
            real_of_int n / real_of_int b / 2 powi s"
    using True by (simp add: power_int_def)
  have pick: "(if 0 \<le> s then round_half_even_div n (b * 2 ^ nat s)
               else round_half_even_div (n * 2 ^ nat (- s)) b) =
              round_half_even_div n (b * 2 ^ nat s)"
    using True by simp
  show ?thesis unfolding pick using err [unfolded eq] .
next
  case False
  then have neg: "0 \<le> - s" by simp
  from round_half_even_div_error [OF assms(2), of "n * 2 ^ nat (- s)"]
  have err: "\<bar>real_of_int (round_half_even_div (n * 2 ^ nat (- s)) b)
         - real_of_int (n * 2 ^ nat (- s)) / real_of_int b\<bar> \<le> 1 / 2" .
  have "(2::real) powi s = 1 / 2 powi (- s)"
    by (simp add: power_int_minus field_simps)
  then have eq: "real_of_int (n * 2 ^ nat (- s)) / real_of_int b =
                 real_of_int n / real_of_int b / 2 powi s"
    using neg by (simp add: power_int_def)
  have pick: "(if 0 \<le> s then round_half_even_div n (b * 2 ^ nat s)
               else round_half_even_div (n * 2 ^ nat (- s)) b) =
              round_half_even_div (n * 2 ^ nat (- s)) b"
    using False by simp
  show ?thesis unfolding pick using err [unfolded eq] .
qed

lemma nearest_double_error:
  assumes "a \<noteq> 0" and "0 < b" and "- 1022 \<le> binade \<bar>a\<bar> b"
  shows "\<bar>double_value (nearest_double a b) - real_of_int a / real_of_int b\<bar>
         \<le> \<bar>real_of_int a / real_of_int b\<bar> / 2 ^ 53"
proof -
  define n where "n = \<bar>a\<bar>"
  define e where "e = binade n b"
  define s where "s = e - 52"
  define q where "q = real_of_int n / real_of_int b"
  define m where "m = (if 0 \<le> s then round_half_even_div n (b * 2 ^ nat s)
                        else round_half_even_div (n * 2 ^ nat (- s)) b)"
  have n: "0 < n" using assms(1) by (simp add: n_def)
  have smax: "max (binade \<bar>a\<bar> b - 52) (- 1074) = s"
    using assms(3) by (simp add: s_def e_def n_def)
  have nd: "nearest_double a b = (sgn a * m, s)"
    using assms(1) by (simp add: nearest_double_def Let_def smax m_def n_def)
  have low: "2 powi e \<le> q"
    using binade_bounds(1) [OF n assms(2)] by (simp add: e_def q_def)
  have ps: "(0::real) < 2 powi s" by simp
  have "\<bar>real_of_int m - q / 2 powi s\<bar> \<le> 1 / 2"
    using significand_error [OF n assms(2), of s] by (simp add: m_def q_def)
  then have "\<bar>real_of_int m - q / 2 powi s\<bar> * 2 powi s \<le> 1 / 2 * 2 powi s"
    using ps by (intro mult_right_mono) simp_all
  moreover have "\<bar>real_of_int m - q / 2 powi s\<bar> * 2 powi s = \<bar>real_of_int m * 2 powi s - q\<bar>"
  proof -
    have "\<bar>real_of_int m - q / 2 powi s\<bar> * 2 powi s =
          \<bar>(real_of_int m - q / 2 powi s) * 2 powi s\<bar>"
      using ps by (simp add: abs_mult)
    also have "(real_of_int m - q / 2 powi s) * 2 powi s = real_of_int m * 2 powi s - q"
      using ps by (simp add: field_simps)
    finally show ?thesis .
  qed
  moreover have "1 / 2 * (2::real) powi s = 2 powi e / 2 ^ 53"
  proof -
    have "(2::real) powi s = 2 powi e / 2 powi 52"
      by (simp add: s_def power_int_diff)
    then show ?thesis by simp
  qed
  ultimately have core: "\<bar>real_of_int m * 2 powi s - q\<bar> \<le> q / 2 ^ 53"
    using low by (simp add: field_simps)
  have qpos: "0 < q" using n assms(2) by (simp add: q_def)
  show ?thesis
  proof (cases "0 < a")
    case True
    then have "real_of_int a / real_of_int b = q" by (simp add: q_def n_def)
    moreover have "double_value (nearest_double a b) = real_of_int m * 2 powi s"
      using True by (simp add: nd double_value_def)
    ultimately show ?thesis using core qpos by simp
  next
    case False
    then have neg: "a < 0" using assms(1) by simp
    then have "real_of_int a / real_of_int b = - q" by (simp add: q_def n_def)
    moreover have "double_value (nearest_double a b) = - (real_of_int m * 2 powi s)"
      using neg by (simp add: nd double_value_def)
    moreover have "\<bar>- (real_of_int m * 2 powi s) - (- q)\<bar> = \<bar>real_of_int m * 2 powi s - q\<bar>"
      by (simp add: abs_minus_commute)
    ultimately show ?thesis using core qpos by (simp only: abs_minus_cancel)
  qed
qed

lemma two_powi_less_imp: "(2::real) powi x < 2 powi y \<Longrightarrow> x < y"
proof (rule ccontr)
  assume less: "(2::real) powi x < 2 powi y" and "\<not> x < y"
  then have "y \<le> x" by simp
  then have "(2::real) powi y \<le> 2 powi x"
    by (intro power_int_increasing) simp_all
  with less show False by simp
qed

lemma py_float_small:
  assumes "n \<noteq> 0" and "\<bar>n\<bar> < 2 ^ 53"
  shows "\<exists>k. py_float n = (n * 2 ^ k, - int k)"
proof -
  define e where "e = binade \<bar>n\<bar> 1"
  have pos: "0 < \<bar>n\<bar>" using assms(1) by simp
  have low: "2 powi e \<le> real_of_int \<bar>n\<bar>" and up: "real_of_int \<bar>n\<bar> < 2 powi (e + 1)"
    using binade_bounds [OF pos, of 1] by (simp_all add: e_def)
  have "real_of_int \<bar>n\<bar> < real_of_int (2 ^ 53)"
    using assms(2) by (simp only: of_int_less_iff)
  then have "real_of_int \<bar>n\<bar> < 2 powi 53" by simp
  with low have "(2::real) powi e < 2 powi 53" by simp
  then have e53: "e < 53" by (rule two_powi_less_imp)
  have "1 \<le> real_of_int \<bar>n\<bar>" using pos by linarith
  with up have "(2::real) powi 0 < 2 powi (e + 1)" by simp
  then have e0: "0 \<le> e" using two_powi_less_imp [of 0 "e + 1"] by simp
  define s where "s = e - 52"
  have smax: "max (binade \<bar>n\<bar> 1 - 52) (- 1074) = s"
    using e0 by (simp add: s_def e_def)
  have s: "s \<le> 0" using e53 by (simp add: s_def)
  have m: "(if 0 \<le> s then round_half_even_div \<bar>n\<bar> (1 * 2 ^ nat s)
            else round_half_even_div (\<bar>n\<bar> * 2 ^ nat (- s)) 1) = \<bar>n\<bar> * 2 ^ nat (- s)"
  proof (cases "0 \<le> s")
    case True
    with s have "s = 0" by simp
    then show ?thesis by (simp add: round_half_even_div_one)
  next
    case False
    then show ?thesis by (simp add: round_half_even_div_one)
  qed
  have "py_float n = (sgn n * (\<bar>n\<bar> * 2 ^ nat (- s)), s)"
    using assms(1) by (simp add: py_float_def nearest_double_def Let_def smax m)
  also have "sgn n * (\<bar>n\<bar> * 2 ^ nat (- s)) = n * 2 ^ nat (- s)"
    by (simp add: mult.assoc [symmetric] mult_sgn_abs)
  finally have pf: "py_float n = (n * 2 ^ nat (- s), s)" .
  have "s = - int (nat (- s))" using s by simp
  with pf have "py_float n = (n * 2 ^ nat (- s), - int (nat (- s)))" by simp
  then show ?thesis by (rule exI)
qed

lemma double_div_small:
  assumes a: "a \<noteq> 0" "\<bar>a\<bar> < 2 ^ 53" and b: "0 < b" "b < 2 ^ 53"
  shows "\<bar>double_value (double_div (py_float a) (py_float b))
          - real_of_int a / real_of_int b\<bar> \<le> \<bar>real_of_int a / real_of_int b\<bar> / 2 ^ 53"
proof -
  from py_float_small [OF a] obtain k where x: "py_float a = (a * 2 ^ k, - int k)" by blast
  from py_float_small [of b] b obtain l where y: "py_float b = (b * 2 ^ l, - int l)" by auto
  define A where "A = a * 2 ^ k * 2 ^ nat (int l - int k)"
  define B where "B = b * 2 ^ l * 2 ^ nat (int k - int l)"
  have dd: "double_div (py_float a) (py_float b) = nearest_double A B"
    by (simp add: double_div_def x y A_def B_def)
  have A0: "A \<noteq> 0" using a(1) by (simp add: A_def)
  have B0: "0 < B" using b(1) by (simp add: B_def)
  have "k + nat (int l - int k) = l + nat (int k - int l)" by simp
  then have pw: "(2::real) ^ k * 2 ^ nat (int l - int k) = 2 ^ l * 2 ^ nat (int k - int l)"
    by (simp only: power_add [symmetric])
  have "real_of_int A / real_of_int B =
        (real_of_int a * (2 ^ k * 2 ^ nat (int l - int k))) /
        (real_of_int b * (2 ^ l * 2 ^ nat (int k - int l)))"
    by (simp add: A_def B_def mult.assoc)
  also have "\<dots> = real_of_int a / real_of_int b"
    unfolding pw by simp
  finally have ratio: "real_of_int A / real_of_int B = real_of_int a / real_of_int b" .
  have "real_of_int \<bar>A\<bar> / real_of_int B = \<bar>real_of_int A / real_of_int B\<bar>"
    using B0 by simp
  then have absratio: "real_of_int \<bar>A\<bar> / real_of_int B = real_of_int \<bar>a\<bar> / real_of_int b"
    using ratio b(1) by simp
  have "real_of_int b < real_of_int (2 ^ 53)"
    using b(2) by (simp only: of_int_less_iff)
  then have rb: "real_of_int b < 2 ^ 53" by simp
  have ra: "1 \<le> real_of_int \<bar>a\<bar>" using a(1) by linarith
  have "1 / 2 ^ 53 < 1 / real_of_int b"
    using rb b(1) by (intro divide_strict_left_mono) simp_all
  also have "\<dots> \<le> real_of_int \<bar>a\<bar> / real_of_int b"
    using ra b(1) by (intro divide_right_mono) simp_all
  finally have "2 powi (- 53) < real_of_int \<bar>a\<bar> / real_of_int b"
    by (simp add: power_int_minus field_simps)
  then have "2 powi (- 53) < real_of_int \<bar>A\<bar> / real_of_int B"
    by (simp only: absratio)
  also have "\<dots> < 2 powi (binade \<bar>A\<bar> B + 1)"
    using A0 B0 by (intro binade_bounds(2)) simp_all
  finally have "- 53 < binade \<bar>A\<bar> B + 1" by (rule two_powi_less_imp)
  then have normal: "- 1022 \<le> binade \<bar>A\<bar> B" by simp
  from nearest_double_error [OF A0 B0 normal] show ?thesis
    by (simp only: dd ratio)
qed

lemma hundredths_error:
  "\<bar>real_of_int (hundredths x) - \<bar>double_value x\<bar> * 100\<bar> \<le> 1 / 2"
proof -
  obtain m s where x: "x = (m, s)" by (cases x)
  have v: "\<bar>double_value x\<bar> = real_of_int \<bar>m\<bar> * 2 powi s"
    by (simp add: x double_value_def abs_mult)
  show ?thesis
  proof (cases "0 \<le> s")
    case True
    then have "real_of_int (hundredths x) = real_of_int \<bar>m\<bar> * 2 powi s * 100"
      by (simp add: x hundredths_def power_int_def)
    then show ?thesis by (simp add: v)
  next
    case False
    then have neg: "0 \<le> - s" by simp
    have "(0::int) < 2 ^ nat (- s)" by simp
    from round_half_even_div_error [OF this, of "\<bar>m\<bar> * 100"]
    have err: "\<bar>real_of_int (round_half_even_div (\<bar>m\<bar> * 100) (2 ^ nat (- s)))
           - real_of_int (\<bar>m\<bar> * 100) / real_of_int (2 ^ nat (- s))\<bar> \<le> 1 / 2" .
    have "(2::real) powi s = 1 / 2 powi (- s)"
      by (simp add: power_int_minus field_simps)
    then have eq: "real_of_int (\<bar>m\<bar> * 100) / real_of_int (2 ^ nat (- s)) =
                   real_of_int \<bar>m\<bar> * 2 powi s * 100"
      using neg by (simp add: power_int_def)
    have h: "hundredths x = round_half_even_div (\<bar>m\<bar> * 100) (2 ^ nat (- s))"
      using False by (simp add: x hundredths_def)
    show ?thesis unfolding h v using err [unfolded eq] .
  qed
qed

lemma shown_error: "\<bar>shown x - double_value x\<bar> \<le> 1 / 200"
proof -
  have h: "\<bar>real_of_int (hundredths x) - \<bar>double_value x\<bar> * 100\<bar> \<le> 1 / 2"
    by (rule hundredths_error)
  have p: "(0::real) < 2 powi (snd x)" by simp
  show ?thesis
  proof (cases "fst x < 0")
    case True
    then have "real_of_int (fst x) * 2 powi (snd x) < 0"
      using p by (simp add: mult_neg_pos)
    then have "\<bar>double_value x\<bar> = - double_value x"
      by (simp add: double_value_def)
    moreover have "shown x = - real_of_int (hundredths x) / 100"
      using True by (simp add: shown_def)
    ultimately show ?thesis using h by (simp add: field_simps abs_if split: if_splits)
  next
    case False
    then have "0 \<le> real_of_int (fst x) * 2 powi (snd x)"
      using p by simp
    then have "\<bar>double_value x\<bar> = double_value x"
      by (simp add: double_value_def)
    moreover have "shown x = real_of_int (hundredths x) / 100"
      using False by (simp add: shown_def)
    ultimately show ?thesis using h by (simp add: field_simps abs_if split: if_splits)
  qed
qed

lemma average_close:
  assumes "\<bar>t\<bar> < 2 ^ 53" and "0 < c" and "c < 2 ^ 53"
  shows "\<bar>shown (double_div (py_float t) (py_float c)) - real_of_int t / real_of_int c\<bar>
         \<le> 1 / 200 + \<bar>real_of_int t / real_of_int c\<bar> / 2 ^ 53"
proof (cases "t = 0")
  case True
  have "py_float 0 = (0, 0)" by (simp add: py_float_def nearest_double_def)
  then have "double_div (py_float 0) (py_float c) = (0, 0)"
    by (simp add: double_div_def nearest_double_def)
  moreover have "shown (0, 0) = 0"
    by (simp add: shown_def hundredths_def)
  ultimately show ?thesis using True by simp
next
  case False
  let ?x = "double_div (py_float t) (py_float c)"
  have "\<bar>shown ?x - real_of_int t / real_of_int c\<bar> \<le>
        \<bar>shown ?x - double_value ?x\<bar> + \<bar>double_value ?x - real_of_int t / real_of_int c\<bar>"
    by simp
  also have "\<dots> \<le> 1 / 200 + \<bar>real_of_int t / real_of_int c\<bar> / 2 ^ 53"
    using shown_error [of ?x] double_div_small [OF False assms]
    by (intro add_mono) simp_all
  finally show ?thesis .
qed

lemma of_char_digit: "0 \<le> d \<Longrightarrow> d < 10 \<Longrightarrow> (of_char (digit d) :: int) = 48 + d"
  by (simp add: digit_def)

lemma digit_value_digit: "0 \<le> d \<Longrightarrow> d < 10 \<Longrightarrow> digit_value (digit d) = d"
  by (simp add: digit_value_def of_char_digit)

lemma digit_not_sign_or_point:
  assumes "0 \<le> d" and "d < 10"
  shows "digit d \<noteq> CHR ''-''" and "digit d \<noteq> CHR ''.''"
proof -
  have "(of_char (digit d) :: int) \<noteq> of_char CHR ''-''"
    using assms by (simp add: of_char_digit)
  then show "digit d \<noteq> CHR ''-''" by auto
  have "(of_char (digit d) :: int) \<noteq> of_char CHR ''.''"
    using assms by (simp add: of_char_digit)
  then show "digit d \<noteq> CHR ''.''" by auto
qed

lemma digits_value_snoc: "digits_value (cs @ [c]) = 10 * digits_value cs + digit_value c"
  by (simp add: digits_value_def)

lemma decimal_digits:
  "0 \<le> n \<Longrightarrow>
   decimal n \<noteq> [] \<and> digits_value (decimal n) = n \<and>
   (\<forall>c \<in> set (decimal n). c \<noteq> CHR ''-'' \<and> c \<noteq> CHR ''.'')"
proof (induction n rule: decimal.induct)
  case (1 n)
  show ?case
  proof (cases "n < 10")
    case True
    then have "decimal n = [digit n]" by (subst decimal.simps) simp
    then show ?thesis
      using True "1.prems" digit_not_sign_or_point [of n]
      by (simp add: digits_value_def digit_value_digit del: decimal.simps)
  next
    case False
    then have unfold: "decimal n = decimal (n div 10) @ [digit (n mod 10)]"
      by (subst decimal.simps) simp
    have ih: "decimal (n div 10) \<noteq> [] \<and> digits_value (decimal (n div 10)) = n div 10 \<and>
              (\<forall>c \<in> set (decimal (n div 10)). c \<noteq> CHR ''-'' \<and> c \<noteq> CHR ''.'')"
      using "1.IH" [OF False] "1.prems" by (simp del: decimal.simps)
    have last: "0 \<le> n mod 10" "n mod 10 < 10" by simp_all
    show ?thesis
      unfolding unfold
      using ih digit_not_sign_or_point [OF last] digit_value_digit [OF last]
      by (simp add: digits_value_snoc del: decimal.simps)
  qed
qed

lemma hundredths_nonneg: "0 \<le> hundredths x"
  by (simp add: hundredths_def round_half_even_div_nonneg)

lemma read_2f_format_2f: "read_2f (format_2f x) = shown x"
proof -
  define h where "h = hundredths x"
  have h: "0 \<le> h" by (simp add: h_def hundredths_nonneg)
  define ds where "ds = decimal (h div 100) @ [digit (h div 10 mod 10), digit (h mod 10)]"
  have whole: "decimal (h div 100) \<noteq> []" "digits_value (decimal (h div 100)) = h div 100"
    "\<forall>c \<in> set (decimal (h div 100)). c \<noteq> CHR ''-'' \<and> c \<noteq> CHR ''.''"
    using decimal_digits [of "h div 100"] h by (simp_all add: pos_imp_zdiv_nonneg_iff del: decimal.simps)
  have d1: "0 \<le> h div 10 mod 10" "h div 10 mod 10 < 10" by simp_all
  have d0: "0 \<le> h mod 10" "h mod 10 < 10" by simp_all
  have "digits_value ds = 10 * (10 * (h div 100) + h div 10 mod 10) + h mod 10"
    using digits_value_snoc [of "decimal (h div 100) @ [digit (h div 10 mod 10)]" "digit (h mod 10)"]
      digits_value_snoc [of "decimal (h div 100)" "digit (h div 10 mod 10)"]
      digit_value_digit [OF d1] digit_value_digit [OF d0]
    by (simp add: ds_def whole(2) del: decimal.simps)
  also have "\<dots> = h"
  proof -
    have "h div 100 = h div 10 div 10" by (simp add: zdiv_zmult2_eq)
    then show ?thesis by presburger
  qed
  finally have dv: "digits_value ds = h" .
  have keep: "filter (\<lambda>c. c \<noteq> CHR ''-'' \<and> c \<noteq> CHR ''.'')
               (decimal (h div 100) @ ''.'' @ [digit (h div 10 mod 10), digit (h mod 10)]) = ds"
    using whole(3) digit_not_sign_or_point [OF d1] digit_not_sign_or_point [OF d0]
    by (simp add: ds_def filter_id_conv del: decimal.simps)
  have first: "hd (decimal (h div 100) @ ''.'' @ [digit (h div 10 mod 10), digit (h mod 10)])
               \<noteq> CHR ''-''"
    using whole(1,3) by (cases "decimal (h div 100)") (simp_all del: decimal.simps)
  show ?thesis
  proof (cases "fst x < 0")
    case True
    then have "format_2f x =
      ''-'' @ decimal (h div 100) @ ''.'' @ [digit (h div 10 mod 10), digit (h mod 10)]"
      by (simp add: format_2f_def Let_def h_def del: decimal.simps)
    then have "read_2f (format_2f x) = - 1 * real_of_int (digits_value ds) / 100"
      using keep by (simp add: read_2f_def del: decimal.simps)
    then show ?thesis using True by (simp add: dv shown_def h_def)
  next
    case False
    then have "format_2f x =
      decimal (h div 100) @ ''.'' @ [digit (h div 10 mod 10), digit (h mod 10)]"
      by (simp add: format_2f_def Let_def h_def del: decimal.simps)
    then have "read_2f (format_2f x) = real_of_int (digits_value ds) / 100"
      using keep first by (simp add: read_2f_def del: decimal.simps)
    then show ?thesis using False by (simp add: dv shown_def h_def)
  qed
qed

lemma mean_of_attempts:
  "arithmetic_mean (map attempts_remaining games) =
   real_of_int (sum_list (map attempts_remaining games)) / real_of_int (int (length games))"
  by (simp add: arithmetic_mean_def)

section \<open>The claims\<close>

subsection \<open>C1: a move on a finished game\<close>

text \<open>
  C1. The claim: on a game with \<open>game_over\<close> set, \<open>make_move\<close> fails with the
  error "game already over", and no field of the game changes. On the code the fields are
  indeed unchanged, but the exception of line 170 is handed back with \<^verbatim>\<open>return\<close>,
  not raised: the call ends normally, with the exception object as its answer. Here on
  the game with target CHAD and one attempt, lost by the guess Z, for the next guess A.
\<close>

theorem finished_game_move_returns_exception:
  "snd (make_move (new_game ''CHAD'' 1) ''Z'') =
     \<lparr>target = ''CHAD'', guessed_letters = [], attempts_remaining = 0, game_over = True,
      won = False, history = [(''Z'', ''Game over!'')]\<rparr> \<and>
   make_move
     \<lparr>target = ''CHAD'', guessed_letters = [], attempts_remaining = 0, game_over = True,
      won = False, history = [(''Z'', ''Game over!'')]\<rparr> ''A'' =
   (Return_exn (BadRequestException ''Game is already over!''),
     \<lparr>target = ''CHAD'', guessed_letters = [], attempts_remaining = 0, game_over = True,
      won = False, history = [(''Z'', ''Game over!'')]\<rparr>)"
  by code_simp

subsection \<open>C2: the whole word in another case\<close>

text \<open>
  C2. The claim: an alphabetic guess that equals the target after case normalisation wins
  at once. Line 174 compares the guess as typed, while the letter loop of line 182 compares
  its upper case. On a new game with target PERU, the guess \<^verbatim>\<open>peru\<close> is
  alphabetic and its upper case is the target, and the call raises "Guess must be a single
  character or the word!" and leaves the game as it was.
\<close>

theorem lower_case_word_rejected:
  "\<not> game_over (new_game ''PERU'' 5) \<and> isalpha ''peru'' \<and>
   upper ''peru'' = target (new_game ''PERU'' 5) \<and>
   make_move (new_game ''PERU'' 5) ''peru'' =
     (Raise (BadRequestException ''Guess must be a single character or the word!''),
      new_game ''PERU'' 5)"
  by code_simp

subsection \<open>C3: the scenario on PERU\<close>

text \<open>
  C3. A new game with target PERU and five attempts, played with P, X, E, R, U: the
  progress is \<^verbatim>\<open>P___\<close> with 5 attempts after P, \<^verbatim>\<open>P___\<close> with 4 after X,
  \<^verbatim>\<open>PE__\<close> with 4 after E, \<^verbatim>\<open>PER_\<close> with 4 after R, and after U the game is
  won, with the message "You win! Word was PERU".
\<close>

theorem peru_scenario:
  "word_progress (play (new_game ''PERU'' 5) [''P'']) = ''P___'' \<and>
   guessed_letters (play (new_game ''PERU'' 5) [''P'']) = [0] \<and>
   attempts_remaining (play (new_game ''PERU'' 5) [''P'']) = 5 \<and>
   word_progress (play (new_game ''PERU'' 5) [''P'', ''X'']) = ''P___'' \<and>
   guessed_letters (play (new_game ''PERU'' 5) [''P'', ''X'']) = [0] \<and>
   attempts_remaining (play (new_game ''PERU'' 5) [''P'', ''X'']) = 4 \<and>
   word_progress (play (new_game ''PERU'' 5) [''P'', ''X'', ''E'']) = ''PE__'' \<and>
   guessed_letters (play (new_game ''PERU'' 5) [''P'', ''X'', ''E'']) = [0, 1] \<and>
   attempts_remaining (play (new_game ''PERU'' 5) [''P'', ''X'', ''E'']) = 4 \<and>
   word_progress (play (new_game ''PERU'' 5) [''P'', ''X'', ''E'', ''R'']) = ''PER_'' \<and>
   guessed_letters (play (new_game ''PERU'' 5) [''P'', ''X'', ''E'', ''R'']) = [0, 1, 2] \<and>
   attempts_remaining (play (new_game ''PERU'' 5) [''P'', ''X'', ''E'', ''R'']) = 4 \<and>
   state_of (play (new_game ''PERU'' 5) [''P'', ''X'', ''E'', ''R'', ''U'']) = WON \<and>
   fst (make_move (play (new_game ''PERU'' 5) [''P'', ''X'', ''E'', ''R'']) ''U'') =
     GameForm (''You win! Word was '' @ ''PERU'')"
  by code_simp

subsection \<open>C4: a letter that reveals nothing\<close>

text \<open>
  C4. On a game in progress, a single letter that matches no position of the target not
  yet guessed costs exactly one attempt and adds exactly one entry to the history, the
  guess with the message of the answer. A game in progress is a consistent game that is
  not over; the letter is a letter guess, not the whole target in one character.
\<close>

theorem miss_costs_one_attempt:
  assumes "game_inv g" and "\<not> game_over g"
    and "isalpha guess" and "length guess = 1" and "guess \<noteq> target g"
    and "new_positions g guess = []"
  shows "attempts_remaining (snd (make_move g guess)) = attempts_remaining g - 1 \<and>
         length (history (snd (make_move g guess))) = length (history g) + 1 \<and>
         (\<exists>msg. fst (make_move g guess) = GameForm msg \<and>
                history (snd (make_move g guess)) = history g @ [(guess, msg)])"
proof -
  have "length (guessed_letters g) \<noteq> length (target g)"
    using assms(1,2) by (simp add: game_inv_def)
  from make_move_miss [OF assms(2,3,5,4,6) this] show ?thesis
    by simp
qed

text \<open>The theorem at the guess X on a new game with target PERU.\<close>

theorem miss_costs_one_attempt_witness:
  "game_inv (new_game ''PERU'' 5) \<and> \<not> game_over (new_game ''PERU'' 5) \<and>
   isalpha ''X'' \<and> length ''X'' = 1 \<and> ''X'' \<noteq> target (new_game ''PERU'' 5) \<and>
   new_positions (new_game ''PERU'' 5) ''X'' = [] \<and>
   attempts_remaining (snd (make_move (new_game ''PERU'' 5) ''X'')) = 4 \<and>
   length (history (snd (make_move (new_game ''PERU'' 5) ''X''))) = 1"
proof -
  have h1: "game_inv (new_game ''PERU'' 5)" by code_simp
  have h2: "\<not> game_over (new_game ''PERU'' 5)" by code_simp
  have h3: "isalpha ''X''" by code_simp
  have h4: "length ''X'' = 1" by simp
  have h5: "''X'' \<noteq> target (new_game ''PERU'' 5)" by code_simp
  have h6: "new_positions (new_game ''PERU'' 5) ''X'' = []" by code_simp
  show ?thesis
    using miss_costs_one_attempt [OF h1 h2 h3 h4 h5 h6] h1 h2 h3 h5 h6
    by (simp add: new_game_def)
qed

subsection \<open>C5: the last attempt\<close>

text \<open>
  C5. On a game in progress with one attempt left, a single letter that reveals no new
  position ends the game in the same call: no attempt remains, \<open>game_over\<close> is set,
  the state is \<open>LOST\<close> and the message is "Game over!".
\<close>

theorem last_miss_loses:
  assumes "game_inv g" and "\<not> game_over g" and "attempts_remaining g = 1"
    and "isalpha guess" and "length guess = 1" and "guess \<noteq> target g"
    and "new_positions g guess = []"
  shows "fst (make_move g guess) = GameForm ''Game over!'' \<and>
         attempts_remaining (snd (make_move g guess)) = 0 \<and>
         game_over (snd (make_move g guess)) \<and>
         state_of (snd (make_move g guess)) = LOST"
proof -
  have "length (guessed_letters g) \<noteq> length (target g)"
    using assms(1,2) by (simp add: game_inv_def)
  from make_move_miss [OF assms(2,4,6,5,7) this] show ?thesis
    using assms(3) by (simp add: state_of_def)
qed

text \<open>The theorem at the guess Z on a new game with target CHAD and one attempt.\<close>

theorem last_miss_loses_witness:
  "game_inv (new_game ''CHAD'' 1) \<and> \<not> game_over (new_game ''CHAD'' 1) \<and>
   attempts_remaining (new_game ''CHAD'' 1) = 1 \<and>
   isalpha ''Z'' \<and> length ''Z'' = 1 \<and> ''Z'' \<noteq> target (new_game ''CHAD'' 1) \<and>
   new_positions (new_game ''CHAD'' 1) ''Z'' = [] \<and>
   fst (make_move (new_game ''CHAD'' 1) ''Z'') = GameForm ''Game over!'' \<and>
   attempts_remaining (snd (make_move (new_game ''CHAD'' 1) ''Z'')) = 0 \<and>
   game_over (snd (make_move (new_game ''CHAD'' 1) ''Z'')) \<and>
   state_of (snd (make_move (new_game ''CHAD'' 1) ''Z'')) = LOST"
proof -
  have h1: "game_inv (new_game ''CHAD'' 1)" by code_simp
  have h2: "\<not> game_over (new_game ''CHAD'' 1)" by code_simp
  have h3: "attempts_remaining (new_game ''CHAD'' 1) = 1" by code_simp
  have h4: "isalpha ''Z''" by code_simp
  have h5: "length ''Z'' = 1" by simp
  have h6: "''Z'' \<noteq> target (new_game ''CHAD'' 1)" by code_simp
  have h7: "new_positions (new_game ''CHAD'' 1) ''Z'' = []" by code_simp
  show ?thesis
    using last_miss_loses [OF h1 h2 h3 h4 h5 h6 h7] h1 h2 h3 h4 h6 h7
    by simp
qed

subsection \<open>C6: the guessed positions never outnumber the target\<close>

text \<open>
  C6. Over any sequence of calls of \<open>make_move\<close>, after each call the guessed positions
  are distinct indices of the target, and so no more numerous than its characters. The
  game the sequence starts from has valid positions, as every new game has (lemma
  \<open>valid_positions_new_game\<close>); \<open>n\<close> is the number of calls made so far.
\<close>

theorem guessed_positions_bounded:
  assumes "valid_positions g"
  shows "length (guessed_letters (play g (take n guesses))) \<le>
           length (target (play g (take n guesses))) \<and>
         valid_positions (play g (take n guesses))"
  using valid_positions_play [OF assms, of "take n guesses"]
  by (simp add: valid_positions_length)

text \<open>The theorem after three calls of the scenario on PERU.\<close>

theorem guessed_positions_bounded_witness:
  "valid_positions (new_game ''PERU'' 5) \<and>
   length (guessed_letters (play (new_game ''PERU'' 5) (take 3 [''P'', ''X'', ''E'', ''R'', ''U'']))) \<le>
     length (target (play (new_game ''PERU'' 5) (take 3 [''P'', ''X'', ''E'', ''R'', ''U''])))"
proof -
  have h: "valid_positions (new_game ''PERU'' 5)" by code_simp
  show ?thesis
    using guessed_positions_bounded [OF h, of 3 "[''P'', ''X'', ''E'', ''R'', ''U'']"] h
    by simp
qed

subsection \<open>C7: a guess that is not alphabetic\<close>

text \<open>
  C7 as stated, for every game: a guess that is not alphabetic is refused with "Guess must
  be all letters!". The check of line 169 comes first, so on a finished game the answer
  is the one about the finished game. Here on the game won in the scenario on PERU, for
  the guess 12.
\<close>

theorem not_alpha_on_finished_game:
  "game_over (play (new_game ''PERU'' 5) [''P'', ''X'', ''E'', ''R'', ''U'']) \<and>
   \<not> isalpha ''12'' \<and>
   make_move (play (new_game ''PERU'' 5) [''P'', ''X'', ''E'', ''R'', ''U'']) ''12'' =
     (Return_exn (BadRequestException ''Game is already over!''),
      play (new_game ''PERU'' 5) [''P'', ''X'', ''E'', ''R'', ''U'']) \<and>
   fst (make_move (play (new_game ''PERU'' 5) [''P'', ''X'', ''E'', ''R'', ''U'']) ''12'') \<noteq>
     Raise (BadRequestException ''Guess must be all letters!'')"
  by code_simp

text \<open>
  C7, amended: on every game that is not over, a guess that is empty or holds an ASCII
  character that is not a letter (as the guess 12 does) raises "Guess must be all
  letters!", and the game is returned as it was, history included.
\<close>

theorem not_alpha_rejected:
  assumes "\<not> game_over g"
    and "guess = [] \<or> (\<exists>c \<in> set guess. of_char c < (128::nat) \<and> \<not> is_letter c)"
  shows "make_move g guess = (Raise (BadRequestException ''Guess must be all letters!''), g)"
proof -
  have "\<not> isalpha guess"
    using assms(2) by (auto simp add: isalpha_def list_all_iff)
  with assms(1) show ?thesis by (rule make_move_not_alpha)
qed

text \<open>The theorem at the guess 12 on a new game with target PERU.\<close>

theorem not_alpha_rejected_witness:
  "\<not> game_over (new_game ''PERU'' 5) \<and>
   (''12'' = [] \<or> (\<exists>c \<in> set ''12''. of_char c < (128::nat) \<and> \<not> is_letter c)) \<and>
   make_move (new_game ''PERU'' 5) ''12'' =
     (Raise (BadRequestException ''Guess must be all letters!''), new_game ''PERU'' 5) \<and>
   history (snd (make_move (new_game ''PERU'' 5) ''12'')) = []"
proof -
  have h1: "\<not> game_over (new_game ''PERU'' 5)" by code_simp
  have h2: "''12'' = [] \<or> (\<exists>c \<in> set ''12''. of_char c < (128::nat) \<and> \<not> is_letter c)"
    by code_simp
  show ?thesis
    using not_alpha_rejected [OF h1 h2] h1 h2 by (simp add: new_game_def)
qed

subsection \<open>C8: the cached average\<close>

text \<open>
  C8 as stated: the computation gives exactly the arithmetic mean, and with no game in
  progress the cached result is absent or empty. For three games in progress with 1, 1
  and 2 attempts the mean is 4/3; the double computed is not 4/3, and what is cached is
  the message with the decimal 1.33.
  With only a finished game in the datastore the function writes nothing, so the message
  cached earlier stays and is what \<open>get_average_attempts\<close> answers.
\<close>

theorem cached_average_rounded_and_kept:
  "cache_average_attempts [new_game ''PERU'' 1, new_game ''CHAD'' 1, new_game ''PERU'' 2] None =
     Some ''The average moves remaining is 1.33'' \<and>
   arithmetic_mean (map attempts_remaining [new_game ''PERU'' 1, new_game ''CHAD'' 1, new_game ''PERU'' 2]) = 4 / 3 \<and>
   double_value (average [new_game ''PERU'' 1, new_game ''CHAD'' 1, new_game ''PERU'' 2]) \<noteq> arithmetic_mean (map attempts_remaining [new_game ''PERU'' 1, new_game ''CHAD'' 1, new_game ''PERU'' 2]) \<and>
   read_2f ''1.33'' \<noteq> arithmetic_mean (map attempts_remaining [new_game ''PERU'' 1, new_game ''CHAD'' 1, new_game ''PERU'' 2]) \<and>
   filter (\<lambda>g. \<not> game_over g)
     [\<lparr>target = ''CHAD'', guessed_letters = [], attempts_remaining = 0, game_over = True,
          won = False, history = [(''Z'', ''Game over!'')]\<rparr>] = [] \<and>
   get_average_attempts
     (cache_average_attempts
        [\<lparr>target = ''CHAD'', guessed_letters = [], attempts_remaining = 0, game_over = True,
          won = False, history = [(''Z'', ''Game over!'')]\<rparr>]
        (Some ''The average moves remaining is 1.33'')) =
     ''The average moves remaining is 1.33'' \<and>
   get_average_attempts
     (cache_average_attempts
        [\<lparr>target = ''CHAD'', guessed_letters = [], attempts_remaining = 0, game_over = True,
          won = False, history = [(''Z'', ''Game over!'')]\<rparr>]
        (Some ''The average moves remaining is 1.33'')) \<noteq> []"
proof -
  have a: "cache_average_attempts [new_game ''PERU'' 1, new_game ''CHAD'' 1, new_game ''PERU'' 2] None =
           Some ''The average moves remaining is 1.33''"
    by code_simp
  have b: "arithmetic_mean (map attempts_remaining [new_game ''PERU'' 1, new_game ''CHAD'' 1, new_game ''PERU'' 2]) = 4 / 3"
    by (simp add: arithmetic_mean_def new_game_def)
  have "average [new_game ''PERU'' 1, new_game ''CHAD'' 1, new_game ''PERU'' 2] = (6004799503160661, - 52)"
    by code_simp
  then have c: "double_value (average [new_game ''PERU'' 1, new_game ''CHAD'' 1, new_game ''PERU'' 2]) \<noteq> arithmetic_mean (map attempts_remaining [new_game ''PERU'' 1, new_game ''CHAD'' 1, new_game ''PERU'' 2])"
    unfolding b by (simp add: double_value_def power_int_minus)
  have "read_2f ''1.33'' = 133 / 100"
    by (simp add: read_2f_def digits_value_def digit_value_def)
  then have d: "read_2f ''1.33'' \<noteq> arithmetic_mean (map attempts_remaining [new_game ''PERU'' 1, new_game ''CHAD'' 1, new_game ''PERU'' 2])"
    unfolding b by simp
  have e: "filter (\<lambda>g. \<not> game_over g)
     [\<lparr>target = ''CHAD'', guessed_letters = [], attempts_remaining = 0, game_over = True,
          won = False, history = [(''Z'', ''Game over!'')]\<rparr>] = []"
    by simp
  have f: "get_average_attempts
     (cache_average_attempts
        [\<lparr>target = ''CHAD'', guessed_letters = [], attempts_remaining = 0, game_over = True,
          won = False, history = [(''Z'', ''Game over!'')]\<rparr>]
        (Some ''The average moves remaining is 1.33'')) =
     ''The average moves remaining is 1.33''"
    by code_simp
  then have g: "get_average_attempts
     (cache_average_attempts
        [\<lparr>target = ''CHAD'', guessed_letters = [], attempts_remaining = 0, game_over = True,
          won = False, history = [(''Z'', ''Game over!'')]\<rparr>]
        (Some ''The average moves remaining is 1.33'')) \<noteq> []"
    by simp
  from a b c d e f g show ?thesis by (intro conjI)
qed

text \<open>
  C8, amended. When some game is not over, the message cached is "The average moves
  remaining is" followed by the average of \<open>attempts_remaining\<close> over the games that are
  not over, divided in double precision and rendered with two decimals; for a sum and a
  number of games below \<open>2 ^ 53\<close> the decimal cached is within 1/200, and one part in
  \<open>2 ^ 53\<close> of the mean, of the arithmetic mean. When every game is over nothing is
  written, zero included: the cache keeps what it held, and a cache that held nothing is
  answered with the empty message.
\<close>

theorem cached_average_rounds_mean:
  assumes "games = filter (\<lambda>g. \<not> game_over g) all_games"
  shows "(games = [] \<longrightarrow>
            cache_average_attempts all_games cache = cache \<and>
            get_average_attempts (cache_average_attempts all_games None) = []) \<and>
         (games \<noteq> [] \<longrightarrow>
            cache_average_attempts all_games cache =
              Some (''The average moves remaining is '' @ format_2f (average games)) \<and>
            (\<bar>sum_list (map attempts_remaining games)\<bar> < 2 ^ 53 \<and> int (length games) < 2 ^ 53 \<longrightarrow>
               \<bar>read_2f (format_2f (average games))
                  - arithmetic_mean (map attempts_remaining games)\<bar>
               \<le> 1 / 200 + \<bar>arithmetic_mean (map attempts_remaining games)\<bar> / 2 ^ 53))"
proof (intro conjI impI)
  assume "games = []"
  then show "cache_average_attempts all_games cache = cache"
    using assms by (simp add: cache_average_attempts_def)
  from \<open>games = []\<close> show "get_average_attempts (cache_average_attempts all_games None) = []"
    using assms by (simp add: cache_average_attempts_def get_average_attempts_def)
next
  assume "games \<noteq> []"
  then show "cache_average_attempts all_games cache =
              Some (''The average moves remaining is '' @ format_2f (average games))"
    using assms by (simp add: cache_average_attempts_def)
next
  assume some: "games \<noteq> []"
    and range: "\<bar>sum_list (map attempts_remaining games)\<bar> < 2 ^ 53 \<and> int (length games) < 2 ^ 53"
  have count: "0 < int (length games)" using some by simp
  have avg: "average games =
     double_div (py_float (sum_list (map attempts_remaining games))) (py_float (int (length games)))"
    by (simp add: average_def Let_def)
  from average_close [OF conjunct1 [OF range] count conjunct2 [OF range]]
  show "\<bar>read_2f (format_2f (average games)) - arithmetic_mean (map attempts_remaining games)\<bar>
        \<le> 1 / 200 + \<bar>arithmetic_mean (map attempts_remaining games)\<bar> / 2 ^ 53"
    by (simp only: read_2f_format_2f avg mean_of_attempts)
qed

text \<open>
  The theorem with two games in progress, of 3 and 4 attempts, and a finished one: the
  decimal cached is 3.50.
\<close>

theorem cached_average_rounds_mean_witness:
  "[new_game ''PERU'' 3, new_game ''CHAD'' 4] =
     filter (\<lambda>g. \<not> game_over g)
       [new_game ''PERU'' 3, new_game ''CHAD'' 4,
        \<lparr>target = ''CHAD'', guessed_letters = [], attempts_remaining = 0, game_over = True,
          won = False, history = [(''Z'', ''Game over!'')]\<rparr>] \<and>
   cache_average_attempts
       [new_game ''PERU'' 3, new_game ''CHAD'' 4,
        \<lparr>target = ''CHAD'', guessed_letters = [], attempts_remaining = 0, game_over = True,
          won = False, history = [(''Z'', ''Game over!'')]\<rparr>] None =
     Some (''The average moves remaining is '' @
           format_2f (average [new_game ''PERU'' 3, new_game ''CHAD'' 4])) \<and>
   format_2f (average [new_game ''PERU'' 3, new_game ''CHAD'' 4]) = ''3.50'' \<and>
   \<bar>read_2f (format_2f (average [new_game ''PERU'' 3, new_game ''CHAD'' 4]))
      - arithmetic_mean (map attempts_remaining [new_game ''PERU'' 3, new_game ''CHAD'' 4])\<bar>
   \<le> 1 / 200 +
      \<bar>arithmetic_mean (map attempts_remaining [new_game ''PERU'' 3, new_game ''CHAD'' 4])\<bar> / 2 ^ 53"
proof -
  have h: "[new_game ''PERU'' 3, new_game ''CHAD'' 4] =
     filter (\<lambda>g. \<not> game_over g)
       [new_game ''PERU'' 3, new_game ''CHAD'' 4,
        \<lparr>target = ''CHAD'', guessed_letters = [], attempts_remaining = 0, game_over = True,
          won = False, history = [(''Z'', ''Game over!'')]\<rparr>]"
    by (simp add: new_game_def)
  have some: "[new_game ''PERU'' 3, new_game ''CHAD'' 4] \<noteq> []" by simp
  have range: "\<bar>sum_list (map attempts_remaining [new_game ''PERU'' 3, new_game ''CHAD'' 4])\<bar> < 2 ^ 53 \<and>
     int (length [new_game ''PERU'' 3, new_game ''CHAD'' 4]) < 2 ^ 53"
    by (simp add: new_game_def)
  have shown: "format_2f (average [new_game ''PERU'' 3, new_game ''CHAD'' 4]) = ''3.50''"
    by code_simp
  from cached_average_rounds_mean [OF h, of None] some range h shown
  show ?thesis by blast
qed

subsection \<open>C9: the whole word leaves the guessed positions alone\<close>

text \<open>
  C9. On a game that is not over, the winning guess of the whole word (alphabetic, equal
  to the target as typed) makes the game \<open>WON\<close> with the message "You win! Word was"
  and the target, and the guessed positions are those from before the call.
\<close>

theorem word_guess_keeps_positions:
  assumes "\<not> game_over g" and "isalpha guess" and "guess = target g"
  shows "fst (make_move g guess) = GameForm (''You win! Word was '' @ target g) \<and>
         state_of (snd (make_move g guess)) = WON \<and>
         guessed_letters (snd (make_move g guess)) = guessed_letters g"
  using make_move_word [OF assms] by (simp add: state_of_def)

text \<open>
  The theorem on the game with target PERU after the guess P: position 0 alone is
  guessed, before the winning guess and after it.
\<close>

theorem word_guess_keeps_positions_witness:
  "\<not> game_over (play (new_game ''PERU'' 5) [''P'']) \<and> isalpha ''PERU'' \<and>
   ''PERU'' = target (play (new_game ''PERU'' 5) [''P'']) \<and>
   guessed_letters (play (new_game ''PERU'' 5) [''P'']) = [0] \<and>
   state_of (snd (make_move (play (new_game ''PERU'' 5) [''P'']) ''PERU'')) = WON \<and>
   guessed_letters (snd (make_move (play (new_game ''PERU'' 5) [''P'']) ''PERU'')) = [0]"
proof -
  have h1: "\<not> game_over (play (new_game ''PERU'' 5) [''P''])" by code_simp
  have h2: "isalpha ''PERU''" by code_simp
  have h3: "''PERU'' = target (play (new_game ''PERU'' 5) [''P''])" by code_simp
  have h4: "guessed_letters (play (new_game ''PERU'' 5) [''P'']) = [0]" by code_simp
  show ?thesis
    using word_guess_keeps_positions [OF h1 h2 h3] h1 h2 h3 h4 by simp
qed

subsection \<open>C10: a revealed letter guessed again\<close>

text \<open>
  C10. On a game in progress, a single letter that occurs in the target, with all of its
  positions guessed already, counts as a miss: one attempt is taken and no position is
  added. With one attempt left the game is \<open>LOST\<close> with the message "Game over!";
  with more, the answer is "Letter was not in the word!" and the game goes on.
\<close>

theorem repeated_letter_is_a_miss:
  assumes "game_inv g" and "\<not> game_over g"
    and "isalpha guess" and "length guess = 1"
    and "matching_positions g guess \<noteq> []"
    and "set (matching_positions g guess) \<subseteq> set (guessed_letters g)"
  shows "attempts_remaining (snd (make_move g guess)) = attempts_remaining g - 1 \<and>
         guessed_letters (snd (make_move g guess)) = guessed_letters g \<and>
         (attempts_remaining g = 1 \<longrightarrow>
            fst (make_move g guess) = GameForm ''Game over!'' \<and>
            state_of (snd (make_move g guess)) = LOST) \<and>
         (1 < attempts_remaining g \<longrightarrow>
            fst (make_move g guess) =
              GameForm (''Letter was not in the word! Word progress: '' @ word_progress g) \<and>
            state_of (snd (make_move g guess)) = IN_PROGRESS)"
proof -
  have hidden: "length (guessed_letters g) < length (target g)"
    using assms(1,2) by (simp add: game_inv_def)
  have "guessed_letters g \<noteq> []"
    using assms(5,6) by (cases "matching_positions g guess") auto
  then have "1 < length (target g)"
    using hidden by (cases "guessed_letters g") auto
  then have differ: "guess \<noteq> target g"
    using assms(4) by auto
  have none: "new_positions g guess = []"
    using assms(6) by (auto simp: new_positions_def filter_empty_conv)
  from hidden have "length (guessed_letters g) \<noteq> length (target g)" by simp
  from make_move_miss [OF assms(2,3) differ assms(4) none this] show ?thesis
    using assms(2) by (simp add: state_of_def)
qed

text \<open>
  The theorem on the game with target PERU and one attempt after the guess P, for the
  guess P again.
\<close>

theorem repeated_letter_is_a_miss_witness:
  "game_inv (play (new_game ''PERU'' 1) [''P'']) \<and>
   \<not> game_over (play (new_game ''PERU'' 1) [''P'']) \<and>
   isalpha ''P'' \<and> length ''P'' = 1 \<and>
   matching_positions (play (new_game ''PERU'' 1) [''P'']) ''P'' = [0] \<and>
   guessed_letters (play (new_game ''PERU'' 1) [''P'']) = [0] \<and>
   attempts_remaining (play (new_game ''PERU'' 1) [''P'']) = 1 \<and>
   attempts_remaining (snd (make_move (play (new_game ''PERU'' 1) [''P'']) ''P'')) = 0 \<and>
   fst (make_move (play (new_game ''PERU'' 1) [''P'']) ''P'') = GameForm ''Game over!'' \<and>
   state_of (snd (make_move (play (new_game ''PERU'' 1) [''P'']) ''P'')) = LOST"
proof -
  have h1: "game_inv (play (new_game ''PERU'' 1) [''P''])" by code_simp
  have h2: "\<not> game_over (play (new_game ''PERU'' 1) [''P''])" by code_simp
  have h3: "isalpha ''P''" by code_simp
  have h4: "length ''P'' = 1" by simp
  have m: "matching_positions (play (new_game ''PERU'' 1) [''P'']) ''P'' = [0]" by code_simp
  have gl: "guessed_letters (play (new_game ''PERU'' 1) [''P'']) = [0]" by code_simp
  have a: "attempts_remaining (play (new_game ''PERU'' 1) [''P'']) = 1" by code_simp
  have h5: "matching_positions (play (new_game ''PERU'' 1) [''P'']) ''P'' \<noteq> []"
    by (simp add: m)
  have h6: "set (matching_positions (play (new_game ''PERU'' 1) [''P'']) ''P'') \<subseteq>
            set (guessed_letters (play (new_game ''PERU'' 1) [''P'']))"
    by (simp add: m gl)
  show ?thesis
    using repeated_letter_is_a_miss [OF h1 h2 h3 h4 h5 h6] h1 h2 h3 m gl a by simp
qed

end
